theory Spec2Isabelle
  imports Complex_Main
begin

text \<open>
  The search widget's two components with logic of their own: the exact search over the
  project feeds (\<^verbatim>\<open>loadProjectFeeds\<close>, \<^verbatim>\<open>initializeFuzzySearch\<close>,
  \<^verbatim>\<open>searchFeeds\<close>) and the resolver from project titles to project pages
  (\<^verbatim>\<open>NLPURLResolver\<close>). Fetching and CSV parsing are outside: a call that loads a
  sheet takes what the fetch came to as an argument.
\<close>

section \<open>JavaScript strings and values\<close>

text \<open>
  A JavaScript string is a sequence of UTF-16 code units. The model keeps the code units
  U+0000 to U+00FF, one \<^typ>\<open>char\<close> each (ASCII and the Latin-1 supplement); the two
  built-in methods the sources call, \<^verbatim>\<open>trim\<close> and \<^verbatim>\<open>toLowerCase\<close>, map
  such strings to such strings.
\<close>

text \<open>
  The ECMAScript productions WhiteSpace and LineTerminator below U+0100: TAB, LF, VT, FF,
  CR, SP and NBSP.
\<close>

definition isWhiteSpace :: "char \<Rightarrow> bool" where
  "isWhiteSpace c =
     (c = CHR 0x09 \<or> c = CHR 0x0A \<or> c = CHR 0x0B \<or> c = CHR 0x0C \<or> c = CHR 0x0D \<or>
      c = CHR 0x20 \<or> c = CHR 0xA0)"

text \<open>\<^verbatim>\<open>String.prototype.trim\<close>: white space removed from both ends.\<close>

definition trim :: "string \<Rightarrow> string" where
  "trim s = rev (dropWhile isWhiteSpace (rev (dropWhile isWhiteSpace s)))"

text \<open>
  \<^verbatim>\<open>String.prototype.toLowerCase\<close>: below U+0100 the letters with a lower-case
  partner are A to Z and U+00C0 to U+00DE without the multiplication sign U+00D7; the
  partner lies 32 code units above.
\<close>

definition isUpper :: "char \<Rightarrow> bool" where
  "isUpper c =
     (let n = (of_char c :: nat)
      in (65 \<le> n \<and> n \<le> 90) \<or> (192 \<le> n \<and> n \<le> 222 \<and> n \<noteq> 215))"

definition lowerChar :: "char \<Rightarrow> char" where
  "lowerChar c = (if isUpper c then char_of ((of_char c :: nat) + 32) else c)"

definition toLowerCase :: "string \<Rightarrow> string" where
  "toLowerCase s = map lowerChar s"

text \<open>
  \<^verbatim>\<open>String.prototype.includes\<close>: the search string occurs at some position of the
  receiver, tried from the left.
\<close>

fun includes_js :: "string \<Rightarrow> string \<Rightarrow> bool" where
  "includes_js [] t = (t = [])"
| "includes_js (c # s) t = (take (length t) (c # s) = t \<or> includes_js s t)"

text \<open>
  The values the modelled expressions can hold: \<^verbatim>\<open>undefined\<close>, a string, and the two
  kinds of value a plain object inherits from \<^verbatim>\<open>Object.prototype\<close> (a built-in
  function, named; the prototype object itself).
\<close>

datatype jsval = Undefined | Str string | NativeFun string | ObjectPrototype

fun truthy :: "jsval \<Rightarrow> bool" where
  "truthy Undefined = False"
| "truthy (Str s) = (s \<noteq> [])"
| "truthy (NativeFun n) = True"
| "truthy ObjectPrototype = True"

text \<open>\<^verbatim>\<open>a || b\<close>\<close>

definition js_or :: "jsval \<Rightarrow> jsval \<Rightarrow> jsval" where
  "js_or a b = (if truthy a then a else b)"

text \<open>
  The string conversion a template literal applies. A built-in function prints as its
  source text, which engines render as \<^verbatim>\<open>function name() { [native code] }\<close>.
\<close>

fun toString_js :: "jsval \<Rightarrow> string" where
  "toString_js Undefined = ''undefined''"
| "toString_js (Str s) = s"
| "toString_js (NativeFun n) = ''function '' @ n @ ''() { [native code] }''"
| "toString_js ObjectPrototype = ''[object Object]''"

datatype js_error = TypeError

section \<open>Rows delivered by the CSV parser\<close>

text \<open>
  With \<^verbatim>\<open>header: true\<close> the parser delivers one object per line, from column name to
  cell text; a column the line lacks reads as \<^verbatim>\<open>undefined\<close>.
\<close>

type_synonym row = "string \<rightharpoonup> string"

text \<open>\<^verbatim>\<open>r.Column?.trim()\<close>\<close>

definition optTrim :: "string option \<Rightarrow> jsval" where
  "optTrim v = (case v of None \<Rightarrow> Undefined | Some s \<Rightarrow> Str (trim s))"

text \<open>
  What fetching and parsing a sheet came to: the fetch failed (with the error's message),
  the parser reported an error, or the parser completed with the rows.
\<close>

datatype fetch_outcome = FetchError string | ParseError string | Parsed "row list"

section \<open>Search logic: loading and searching the project feeds\<close>

record feed =
  Title :: jsval
  Description :: jsval
  URL :: jsval
  Team :: jsval
  Status :: jsval
  Location :: jsval
  Tags :: jsval
  raw :: row

text \<open>The callback of \<^verbatim>\<open>results.data.map\<close> in \<^verbatim>\<open>loadProjectFeeds\<close>.\<close>

definition feedOfRow :: "row \<Rightarrow> feed" where
  "feedOfRow r =
     \<lparr> Title = js_or (optTrim (r ''Title'')) (js_or (optTrim (r ''Name'')) (Str ''(No title)'')),
       Description =
         js_or (optTrim (r ''Description''))
           (js_or (optTrim (r ''About'')) (Str ''(No description)'')),
       URL = js_or (optTrim (r ''URL'')) (js_or (optTrim (r ''Link'')) (Str ''#'')),
       Team = js_or (optTrim (r ''Team'')) (Str []),
       Status = js_or (optTrim (r ''Status'')) (Str []),
       Location = js_or (optTrim (r ''Location'')) (Str []),
       Tags = js_or (optTrim (r ''Tags'')) (Str []),
       raw = r \<rparr>"

text \<open>
  \<^verbatim>\<open>loadProjectFeeds\<close>: \<open>Inl\<close> carries the message handed to \<^verbatim>\<open>onError\<close>,
  \<open>Inr\<close> the feeds handed to \<^verbatim>\<open>onSuccess\<close>.
\<close>

definition loadProjectFeeds :: "fetch_outcome \<Rightarrow> string + feed list" where
  "loadProjectFeeds outcome =
     (case outcome of
        FetchError msg \<Rightarrow> Inl (''Error loading Google Sheet: '' @ msg)
      | ParseError err \<Rightarrow> Inl (''Error parsing CSV: '' @ err)
      | Parsed data \<Rightarrow>
          if length data = 0 then Inl ''No data found in Google Sheet.''
          else Inr (map feedOfRow data))"

text \<open>
  The fuzzy index is an object of the Fuse.js library, which is not part of the
  repository: the model keeps what the constructor is given, and takes the library's
  \<^verbatim>\<open>search\<close> method as a parameter.
\<close>

record fuse_options =
  keys :: "string list"
  threshold :: rat
  includeScore :: bool

record search_result =
  item :: feed
  refIndex :: "nat option"
  score :: "rat option"

record fuse =
  docs :: "feed list"
  options :: fuse_options

type_synonym fuse_search = "fuse \<Rightarrow> string \<Rightarrow> search_result list"

definition initializeFuzzySearch :: "feed list \<Rightarrow> rat option \<Rightarrow> fuse" where
  "initializeFuzzySearch feeds thresholdArg =
     \<lparr> docs = feeds,
       options =
         \<lparr> keys = [''Title'', ''Description'', ''Team'', ''Tags'', ''Location''],
           threshold = (case thresholdArg of None \<Rightarrow> 35 / 100 | Some t \<Rightarrow> t),
           includeScore = True \<rparr> \<rparr>"

text \<open>\<^verbatim>\<open>v.toLowerCase()\<close> on a value: only a string has the method.\<close>

fun toLowerCase_val :: "jsval \<Rightarrow> js_error + string" where
  "toLowerCase_val (Str s) = Inr (toLowerCase s)"
| "toLowerCase_val v = Inl TypeError"

text \<open>
  The predicate of \<^verbatim>\<open>feeds.filter\<close>: the description is read only when the title
  does not match.
\<close>

definition feedMatches :: "string \<Rightarrow> feed \<Rightarrow> js_error + bool" where
  "feedMatches lowerQuery f =
     (case toLowerCase_val (Title f) of
        Inl e \<Rightarrow> Inl e
      | Inr t \<Rightarrow>
          if includes_js t lowerQuery then Inr True
          else (case toLowerCase_val (Description f) of
                  Inl e \<Rightarrow> Inl e
                | Inr d \<Rightarrow> Inr (includes_js d lowerQuery)))"

text \<open>\<^verbatim>\<open>Array.prototype.filter\<close> with that predicate, left to right; a throw ends it.\<close>

fun filterFeeds :: "string \<Rightarrow> feed list \<Rightarrow> js_error + feed list" where
  "filterFeeds lowerQuery [] = Inr []"
| "filterFeeds lowerQuery (f # fs) =
     (case feedMatches lowerQuery f of
        Inl e \<Rightarrow> Inl e
      | Inr b \<Rightarrow>
          (case filterFeeds lowerQuery fs of
             Inl e \<Rightarrow> Inl e
           | Inr rs \<Rightarrow> Inr (if b then f # rs else rs)))"

definition searchFeeds ::
  "fuse_search \<Rightarrow> string \<Rightarrow> feed list \<Rightarrow> fuse option \<Rightarrow> bool \<Rightarrow> js_error + search_result list"
where
  "searchFeeds fuseSearch query feeds fuseInstance useFuzzy =
     (if trim query = [] then Inr []
      else
        (case (useFuzzy, fuseInstance) of
           (True, Some fuseObj) \<Rightarrow> Inr (fuseSearch fuseObj query)
         | _ \<Rightarrow>
             (let lowerQuery = toLowerCase query
              in case filterFeeds lowerQuery feeds of
                   Inl e \<Rightarrow> Inl e
                 | Inr fs \<Rightarrow> Inr (map (\<lambda>f. \<lparr> item = f, refIndex = None, score = None \<rparr>) fs))))"

section \<open>The URL resolver\<close>

text \<open>
  \<^verbatim>\<open>listsMapping\<close> is a plain object (the literal \<^verbatim>\<open>{}\<close>): the model keeps its
  own properties as a map, and reads and writes it as JavaScript does. A read finds the
  object's own property, else what \<^verbatim>\<open>Object.prototype\<close> holds under that name. A
  write creates or replaces an own property, but for the name \<^verbatim>\<open>__proto__\<close>, whose
  setter ignores a string.
\<close>

definition objectPrototype :: "string \<Rightarrow> jsval" where
  "objectPrototype k =
     (if k = ''constructor'' then NativeFun ''Object''
      else if k = ''__proto__'' then ObjectPrototype
      else if k \<in> set [''hasOwnProperty'', ''isPrototypeOf'', ''propertyIsEnumerable'',
                        ''toLocaleString'', ''toString'', ''valueOf'',
                        ''__defineGetter__'', ''__defineSetter__'',
                        ''__lookupGetter__'', ''__lookupSetter__'']
      then NativeFun k
      else Undefined)"

definition getProperty :: "(string \<rightharpoonup> string) \<Rightarrow> string \<Rightarrow> jsval" where
  "getProperty obj k = (case obj k of Some v \<Rightarrow> Str v | None \<Rightarrow> objectPrototype k)"

definition setProperty :: "(string \<rightharpoonup> string) \<Rightarrow> string \<Rightarrow> string \<Rightarrow> (string \<rightharpoonup> string)" where
  "setProperty obj k v = (if k = ''__proto__'' then obj else obj(k \<mapsto> v))"

record resolver =
  listsMapping :: "string \<rightharpoonup> string"
  baseURL :: string
  isLoaded :: bool

text \<open>The constructor; the argument is \<^verbatim>\<open>window.location.origin\<close>.\<close>

definition newNLPURLResolver :: "string \<Rightarrow> resolver" where
  "newNLPURLResolver origin =
     \<lparr> listsMapping = Map.empty, baseURL = origin @ ''/team/projects/'', isLoaded = False \<rparr>"

text \<open>The callback of \<^verbatim>\<open>results.data.forEach\<close> in \<^verbatim>\<open>loadListsMapping\<close>.\<close>

definition addRow :: "(string \<rightharpoonup> string) \<Rightarrow> row \<Rightarrow> (string \<rightharpoonup> string)" where
  "addRow m r =
     (let title = optTrim (r ''Title''); feed = optTrim (r ''Feed'')
      in if truthy title \<and> truthy feed
         then (case (title, feed) of
                 (Str t, Str f) \<Rightarrow> setProperty (setProperty m t f) (toLowerCase t) f
               | _ \<Rightarrow> m)
         else m)"

text \<open>
  \<^verbatim>\<open>loadListsMapping\<close>: \<open>Inl\<close> is the message of the error thrown (the promise
  rejected), \<open>Inr\<close> the resolver after the rows were stored.
\<close>

definition loadListsMapping :: "resolver \<Rightarrow> fetch_outcome \<Rightarrow> string + resolver" where
  "loadListsMapping this outcome =
     (case outcome of
        FetchError msg \<Rightarrow> Inl (''Failed to fetch lists.csv: '' @ msg)
      | ParseError msg \<Rightarrow> Inl (''CSV parse error: '' @ msg)
      | Parsed data \<Rightarrow>
          if length data = 0 then Inl ''No data found in lists.csv''
          else Inr (this\<lparr> listsMapping := foldl addRow (listsMapping this) data \<rparr>))"

text \<open>\<^verbatim>\<open>init\<close>: the resolver afterwards, and the value returned.\<close>

definition init :: "resolver \<Rightarrow> fetch_outcome \<Rightarrow> resolver \<times> bool" where
  "init this outcome =
     (case loadListsMapping this outcome of
        Inr this' \<Rightarrow> (this'\<lparr> isLoaded := True \<rparr>, True)
      | Inl error \<Rightarrow> (this\<lparr> isLoaded := False \<rparr>, False))"

text \<open>
  \<^verbatim>\<open>getProjectPageURL\<close>: a title that is absent is \<open>None\<close>; so is a fallback URL
  that is not passed, which the parameter's default replaces by \<^verbatim>\<open>'#'\<close>.
\<close>

definition getProjectPageURL :: "resolver \<Rightarrow> string option \<Rightarrow> string option \<Rightarrow> string" where
  "getProjectPageURL this projectTitle fallbackArg =
     (let fallbackURL = (case fallbackArg of None \<Rightarrow> ''#'' | Some u \<Rightarrow> u)
      in if \<not> isLoaded this then fallbackURL
         else (case projectTitle of
                 None \<Rightarrow> fallbackURL
               | Some title \<Rightarrow>
                   if title = [] then fallbackURL
                   else
                     (let slug = getProperty (listsMapping this) (trim title);
                          slug = (if \<not> truthy slug
                                  then getProperty (listsMapping this) (toLowerCase (trim title))
                                  else slug)
                      in if truthy slug
                         then baseURL this @ ''#list='' @ toString_js slug @ ''&display=table''
                         else fallbackURL)))"

text \<open>
  A resolver as the program can hold it: constructed, then initialised any number of
  times, each time with what the fetch came to.
\<close>

definition afterInits :: "string \<Rightarrow> fetch_outcome list \<Rightarrow> resolver" where
  "afterInits origin outcomes =
     foldl (\<lambda>this outcome. fst (init this outcome)) (newNLPURLResolver origin) outcomes"

section \<open>Vocabulary of the properties\<close>

text \<open>
  A record as the data model has it: the two fields the exact search reads hold strings.
\<close>

fun isString :: "jsval \<Rightarrow> bool" where
  "isString (Str s) = True"
| "isString v = False"

definition stringFields :: "feed \<Rightarrow> bool" where
  "stringFields f = (isString (Title f) \<and> isString (Description f))"

text \<open>
  What a row of the reference dataset stores: its trimmed title and trimmed slug, when it
  has both and neither is empty (the test \<^verbatim>\<open>title && feed\<close> of the loop).
\<close>

definition rowEntry :: "row \<Rightarrow> (string \<times> string) option" where
  "rowEntry r =
     (case (optTrim (r ''Title''), optTrim (r ''Feed'')) of
        (Str t, Str f) \<Rightarrow> if t \<noteq> [] \<and> f \<noteq> [] then Some (t, f) else None
      | _ \<Rightarrow> None)"

text \<open>The table that \<^verbatim>\<open>init\<close> builds on a new resolver from the rows of a dataset.\<close>

abbreviation tableBuiltBy :: "string \<Rightarrow> row list \<Rightarrow> (string \<rightharpoonup> string)" where
  "tableBuiltBy origin data \<equiv> listsMapping (fst (init (newNLPURLResolver origin) (Parsed data)))"

section \<open>Facts about strings\<close>

lemma includes_js_iff: "includes_js s t \<longleftrightarrow> (\<exists>u v. s = u @ t @ v)"
proof (induction s)
  case Nil
  then show ?case by auto
next
  case (Cons c s)
  have here: "take (length t) (c # s) = t \<longleftrightarrow> (\<exists>v. c # s = t @ v)"
    by (metis append_eq_conv_conj)
  have "(\<exists>u v. c # s = u @ t @ v) \<longleftrightarrow> (\<exists>v. c # s = t @ v) \<or> (\<exists>u v. s = u @ t @ v)"
  proof
    assume "\<exists>u v. c # s = u @ t @ v"
    then obtain u v where uv: "c # s = u @ t @ v" by blast
    show "(\<exists>v. c # s = t @ v) \<or> (\<exists>u v. s = u @ t @ v)"
      using uv by (cases u) auto
  next
    assume "(\<exists>v. c # s = t @ v) \<or> (\<exists>u v. s = u @ t @ v)"
    then show "\<exists>u v. c # s = u @ t @ v"
    proof
      assume "\<exists>v. c # s = t @ v"
      then show ?thesis by (metis append_Nil)
    next
      assume "\<exists>u v. s = u @ t @ v"
      then show ?thesis by (metis append_Cons)
    qed
  qed
  with here Cons.IH show ?case by simp
qed

lemma dropWhile_all_iff: "(\<forall>x\<in>set (dropWhile P s). P x) \<longleftrightarrow> (\<forall>x\<in>set s. P x)"
proof
  assume a: "\<forall>x\<in>set (dropWhile P s). P x"
  have "dropWhile P s = []"
  proof (rule ccontr)
    assume n: "dropWhile P s \<noteq> []"
    then have "\<not> P (hd (dropWhile P s))" by (rule hd_dropWhile)
    moreover have "hd (dropWhile P s) \<in> set (dropWhile P s)" using n by simp
    ultimately show False using a by blast
  qed
  then show "\<forall>x\<in>set s. P x" by (simp add: dropWhile_eq_Nil_conv)
next
  assume "\<forall>x\<in>set s. P x"
  then show "\<forall>x\<in>set (dropWhile P s). P x" by (meson set_dropWhileD)
qed

lemma trim_Nil_iff: "trim s = [] \<longleftrightarrow> (\<forall>c\<in>set s. isWhiteSpace c)"
  by (simp add: trim_def dropWhile_all_iff)

lemma lowerChar_idem: "lowerChar (lowerChar c) = lowerChar c"
  by (simp add: lowerChar_def isUpper_def Let_def)

lemma toLowerCase_idem: "toLowerCase (toLowerCase s) = toLowerCase s"
  by (simp add: toLowerCase_def lowerChar_idem)

lemma toLowerCase_Nil_iff: "toLowerCase s = [] \<longleftrightarrow> s = []"
  by (simp add: toLowerCase_def)

lemma isString_iff: "isString v \<longleftrightarrow> (\<exists>s. v = Str s)"
  by (cases v) simp_all

section \<open>The exact search\<close>

lemma feedMatches_strings:
  "Title f = Str t \<Longrightarrow> Description f = Str d \<Longrightarrow>
   feedMatches q f = Inr (includes_js (toLowerCase t) q \<or> includes_js (toLowerCase d) q)"
  by (simp add: feedMatches_def)

lemma filterFeeds_strings:
  "list_all stringFields feeds \<Longrightarrow>
   filterFeeds q feeds =
     Inr (filter (\<lambda>f. \<exists>t d. Title f = Str t \<and> Description f = Str d \<and>
            (includes_js (toLowerCase t) q \<or> includes_js (toLowerCase d) q)) feeds)"
proof (induction feeds)
  case Nil
  then show ?case by simp
next
  case (Cons f fs)
  from Cons.prems obtain t d where td: "Title f = Str t" "Description f = Str d"
    by (auto simp: stringFields_def isString_iff)
  from Cons.prems have "list_all stringFields fs" by simp
  then show ?case using Cons.IH td by (simp add: feedMatches_strings)
qed

lemma searchFeeds_exact:
  "useFuzzy = False \<or> fuseInstance = None \<Longrightarrow>
   searchFeeds fuseSearch query feeds fuseInstance useFuzzy =
     (if trim query = [] then Inr []
      else case filterFeeds (toLowerCase query) feeds of
             Inl e \<Rightarrow> Inl e
           | Inr fs \<Rightarrow> Inr (map (\<lambda>f. \<lparr> item = f, refIndex = None, score = None \<rparr>) fs))"
  by (auto simp: searchFeeds_def split: bool.splits option.splits)

text \<open>
  Claim C6. Whatever the records, the index and the mode flag, a query that is empty or
  made of white space only gets the empty result list, and nothing is thrown.
\<close>

theorem C6_empty_query:
  "\<forall>c\<in>set query. isWhiteSpace c \<Longrightarrow>
   searchFeeds fuseSearch query feeds fuseInstance useFuzzy = Inr []"
  by (simp add: searchFeeds_def trim_Nil_iff)

theorem C6_empty_query_witness:
  "isWhiteSpace (CHR 0x20) \<and> isWhiteSpace (CHR 0x09) \<and>
   searchFeeds (\<lambda>ix q. []) [CHR 0x20, CHR 0x09]
     [feedOfRow [''Title'' \<mapsto> ''Data Pipeline'', ''Description'' \<mapsto> ''ETL tool'']]
     (Some (initializeFuzzySearch [] None)) True = Inr []"
  using C6_empty_query [of "[CHR 0x20, CHR 0x09]" "\<lambda>ix q. []"
      "[feedOfRow [''Title'' \<mapsto> ''Data Pipeline'', ''Description'' \<mapsto> ''ETL tool'']]"
      "Some (initializeFuzzySearch [] None)" True]
  by (simp add: isWhiteSpace_def)

text \<open>
  Claim C3. A fuzzy search asked for without an index gives what the exact search gives
  on the same query and records (with or without an index): the same results, and on
  records whose title and description are strings it does give results, not an error.
\<close>

theorem C3_fuzzy_degrade:
  "searchFeeds fuseSearch query feeds None True = searchFeeds fuseSearch query feeds fuseInstance False
   \<and> (list_all stringFields feeds \<longrightarrow>
        (\<exists>results. searchFeeds fuseSearch query feeds None True = Inr results))"
  by (simp add: searchFeeds_exact filterFeeds_strings)

theorem C3_fuzzy_degrade_witness:
  "list_all stringFields
     [feedOfRow [''Title'' \<mapsto> ''Data Pipeline'', ''Description'' \<mapsto> ''ETL tool''],
      feedOfRow Map.empty] \<and>
   (\<exists>results.
      searchFeeds (\<lambda>ix q. []) ''etl''
        [feedOfRow [''Title'' \<mapsto> ''Data Pipeline'', ''Description'' \<mapsto> ''ETL tool''],
         feedOfRow Map.empty]
        None True = Inr results)"
proof -
  let ?feeds = "[feedOfRow [''Title'' \<mapsto> ''Data Pipeline'', ''Description'' \<mapsto> ''ETL tool''],
                 feedOfRow Map.empty]"
  have wf: "list_all stringFields ?feeds"
    by (simp add: stringFields_def feedOfRow_def js_or_def optTrim_def)
  with C3_fuzzy_degrade [of "\<lambda>ix q. []" "''etl''" ?feeds None] show ?thesis
    by blast
qed

text \<open>
  Claim C2. In exact mode (the flag is off, or there is no index), for records whose
  title and description are strings and a query that is not white space only, the
  search returns, in the order of the record list, exactly the records whose lower-cased
  title or lower-cased description contains the lower-cased query as a substring; no
  other field enters the test; no result carries a score.
\<close>

theorem C2_exact_mode:
  assumes mode: "useFuzzy = False \<or> fuseInstance = None"
    and query: "trim query \<noteq> []"
    and feeds: "list_all stringFields feeds"
  shows "\<exists>results.
           searchFeeds fuseSearch query feeds fuseInstance useFuzzy = Inr results \<and>
           map item results =
             filter (\<lambda>f. \<exists>t d. Title f = Str t \<and> Description f = Str d \<and>
                       ((\<exists>u v. toLowerCase t = u @ toLowerCase query @ v) \<or>
                        (\<exists>u v. toLowerCase d = u @ toLowerCase query @ v))) feeds \<and>
           list_all (\<lambda>r. score r = None) results"
proof -
  let ?P = "\<lambda>f. \<exists>t d. Title f = Str t \<and> Description f = Str d \<and>
              (includes_js (toLowerCase t) (toLowerCase query) \<or>
               includes_js (toLowerCase d) (toLowerCase query))"
  let ?mk = "\<lambda>f. \<lparr> item = f, refIndex = None, score = None \<rparr>"
  have "searchFeeds fuseSearch query feeds fuseInstance useFuzzy = Inr (map ?mk (filter ?P feeds))"
    using mode query by (simp add: searchFeeds_exact filterFeeds_strings [OF feeds])
  moreover have "map item (map ?mk (filter ?P feeds)) = filter ?P feeds"
    by (simp add: comp_def)
  moreover have "list_all (\<lambda>r. score r = None) (map ?mk (filter ?P feeds))"
    by (simp add: list_all_iff)
  ultimately show ?thesis
    unfolding includes_js_iff by blast
qed

theorem C2_exact_mode_witness:
  "trim ''etl'' \<noteq> [] \<and>
   list_all stringFields
     [feedOfRow [''Title'' \<mapsto> ''Data Pipeline'', ''Description'' \<mapsto> ''ETL tool''],
      feedOfRow Map.empty] \<and>
   (\<exists>results.
      searchFeeds (\<lambda>ix q. []) ''etl''
        [feedOfRow [''Title'' \<mapsto> ''Data Pipeline'', ''Description'' \<mapsto> ''ETL tool''],
         feedOfRow Map.empty]
        None True = Inr results \<and>
      map item results =
        filter (\<lambda>f. \<exists>t d. Title f = Str t \<and> Description f = Str d \<and>
                  ((\<exists>u v. toLowerCase t = u @ toLowerCase ''etl'' @ v) \<or>
                   (\<exists>u v. toLowerCase d = u @ toLowerCase ''etl'' @ v)))
          [feedOfRow [''Title'' \<mapsto> ''Data Pipeline'', ''Description'' \<mapsto> ''ETL tool''],
           feedOfRow Map.empty] \<and>
      list_all (\<lambda>r. score r = None) results)"
proof -
  let ?feeds = "[feedOfRow [''Title'' \<mapsto> ''Data Pipeline'', ''Description'' \<mapsto> ''ETL tool''],
                 feedOfRow Map.empty]"
  have q: "trim ''etl'' \<noteq> []"
    by (simp add: trim_def isWhiteSpace_def)
  have wf: "list_all stringFields ?feeds"
    by (simp add: stringFields_def feedOfRow_def js_or_def optTrim_def)
  from C2_exact_mode [of True None "''etl''" ?feeds "\<lambda>ix q. []", OF _ q wf] q wf
  show ?thesis by blast
qed

section \<open>Feed normalisation\<close>

lemma js_or_Str: "\<exists>s. b = Str s \<Longrightarrow> \<exists>s. js_or (optTrim v) b = Str s"
  by (cases v) (auto simp: js_or_def optTrim_def)

lemma js_or_Str_nonempty:
  "\<exists>s. b = Str s \<and> s \<noteq> [] \<Longrightarrow> \<exists>s. js_or (optTrim v) b = Str s \<and> s \<noteq> []"
  by (cases v) (auto simp: js_or_def optTrim_def)

lemma js_or_absent: "js_or (optTrim None) b = b"
  by (simp add: js_or_def optTrim_def)

lemma loadProjectFeeds_Inr:
  "loadProjectFeeds outcome = Inr feeds \<Longrightarrow> \<exists>data. outcome = Parsed data \<and> data \<noteq> [] \<and> feeds = map feedOfRow data"
  by (auto simp: loadProjectFeeds_def split: fetch_outcome.splits if_splits)

lemma loadProjectFeeds_stringFields:
  "loadProjectFeeds outcome = Inr feeds \<Longrightarrow> list_all stringFields feeds"
proof -
  assume "loadProjectFeeds outcome = Inr feeds"
  then obtain data where feeds: "feeds = map feedOfRow data"
    using loadProjectFeeds_Inr by blast
  have "stringFields (feedOfRow r)" for r
    unfolding stringFields_def isString_iff feedOfRow_def by (simp add: js_or_Str)
  then show ?thesis by (simp add: feeds list_all_iff)
qed

text \<open>
  Claim C8. Every record that feed normalisation produces holds a string in each of the
  five searchable fields (title, description, team, tags, location), the title and the
  description non-empty: the title and the description are the placeholders when the
  row has neither source column, and team, tags and location are the empty string when
  the row lacks the column.
\<close>

theorem C8_normalized_fields:
  assumes "loadProjectFeeds outcome = Inr feeds" and "f \<in> set feeds"
  shows "(\<exists>t. Title f = Str t \<and> t \<noteq> []) \<and>
         (\<exists>d. Description f = Str d \<and> d \<noteq> []) \<and>
         (\<exists>s. Team f = Str s) \<and> (\<exists>s. Tags f = Str s) \<and> (\<exists>s. Location f = Str s) \<and>
         (raw f ''Title'' = None \<and> raw f ''Name'' = None \<longrightarrow> Title f = Str ''(No title)'') \<and>
         (raw f ''Description'' = None \<and> raw f ''About'' = None \<longrightarrow>
            Description f = Str ''(No description)'') \<and>
         (raw f ''Team'' = None \<longrightarrow> Team f = Str []) \<and>
         (raw f ''Tags'' = None \<longrightarrow> Tags f = Str []) \<and>
         (raw f ''Location'' = None \<longrightarrow> Location f = Str [])"
proof -
  from assms(1) obtain data where "feeds = map feedOfRow data"
    using loadProjectFeeds_Inr by blast
  with assms(2) obtain r where f: "f = feedOfRow r"
    by auto
  have "\<exists>t. Title f = Str t \<and> t \<noteq> []"
    unfolding f feedOfRow_def by (simp add: js_or_Str_nonempty)
  moreover have "\<exists>d. Description f = Str d \<and> d \<noteq> []"
    unfolding f feedOfRow_def by (simp add: js_or_Str_nonempty)
  moreover have "(\<exists>s. Team f = Str s) \<and> (\<exists>s. Tags f = Str s) \<and> (\<exists>s. Location f = Str s)"
    unfolding f feedOfRow_def by (simp add: js_or_Str)
  moreover have "raw f ''Title'' = None \<and> raw f ''Name'' = None \<longrightarrow> Title f = Str ''(No title)''"
    unfolding f feedOfRow_def by (simp add: js_or_absent)
  moreover have "raw f ''Description'' = None \<and> raw f ''About'' = None \<longrightarrow>
      Description f = Str ''(No description)''"
    unfolding f feedOfRow_def by (simp add: js_or_absent)
  moreover have "(raw f ''Team'' = None \<longrightarrow> Team f = Str []) \<and>
      (raw f ''Tags'' = None \<longrightarrow> Tags f = Str []) \<and>
      (raw f ''Location'' = None \<longrightarrow> Location f = Str [])"
    unfolding f feedOfRow_def by (simp add: js_or_absent)
  ultimately show ?thesis by blast
qed

theorem C8_normalized_fields_witness:
  "loadProjectFeeds (Parsed [[''Name'' \<mapsto> '' Data Pipeline '']]) =
     Inr [feedOfRow [''Name'' \<mapsto> '' Data Pipeline '']] \<and>
   Title (feedOfRow [''Name'' \<mapsto> '' Data Pipeline '']) = Str ''Data Pipeline'' \<and>
   Description (feedOfRow [''Name'' \<mapsto> '' Data Pipeline '']) = Str ''(No description)'' \<and>
   Team (feedOfRow [''Name'' \<mapsto> '' Data Pipeline '']) = Str [] \<and>
   Tags (feedOfRow [''Name'' \<mapsto> '' Data Pipeline '']) = Str [] \<and>
   Location (feedOfRow [''Name'' \<mapsto> '' Data Pipeline '']) = Str []"
proof -
  let ?r = "[''Name'' \<mapsto> '' Data Pipeline '']"
  have l: "loadProjectFeeds (Parsed [?r]) = Inr [feedOfRow ?r]"
    by (simp add: loadProjectFeeds_def)
  have t: "Title (feedOfRow ?r) = Str ''Data Pipeline''"
    by (simp add: feedOfRow_def js_or_def optTrim_def trim_def isWhiteSpace_def)
  have "raw (feedOfRow ?r) = ?r"
    by (simp add: feedOfRow_def)
  with C8_normalized_fields [OF l, of "feedOfRow ?r"] l t show ?thesis
    by simp
qed

section \<open>Building the lookup table\<close>

lemma rowEntry_nonempty: "rowEntry r = Some (t, f) \<Longrightarrow> t \<noteq> [] \<and> f \<noteq> []"
  by (auto simp: rowEntry_def split: jsval.splits if_splits)

lemma addRow_rowEntry:
  "addRow m r =
     (case rowEntry r of
        None \<Rightarrow> m
      | Some (t, f) \<Rightarrow> setProperty (setProperty m t f) (toLowerCase t) f)"
  by (auto simp: addRow_def rowEntry_def Let_def split: jsval.splits)

lemma setProperty_map_add: "setProperty m k v = m ++ setProperty Map.empty k v"
  by (simp add: setProperty_def)

lemma addRow_map_add: "addRow m r = m ++ addRow Map.empty r"
proof (cases "rowEntry r")
  case None
  then show ?thesis by (simp add: addRow_rowEntry)
next
  case (Some e)
  obtain t f where e: "e = (t, f)" by (cases e)
  have "setProperty (setProperty m t f) (toLowerCase t) f =
        m ++ (setProperty Map.empty t f ++ setProperty Map.empty (toLowerCase t) f)"
    by (metis setProperty_map_add map_add_assoc)
  moreover have "setProperty (setProperty Map.empty t f) (toLowerCase t) f =
        setProperty Map.empty t f ++ setProperty Map.empty (toLowerCase t) f"
    by (metis setProperty_map_add)
  ultimately show ?thesis using Some e by (simp add: addRow_rowEntry)
qed

lemma foldl_addRow_map_add: "foldl addRow m rs = m ++ foldl addRow Map.empty rs"
proof (induction rs arbitrary: m)
  case Nil
  then show ?case by simp
next
  case (Cons r rs)
  have "foldl addRow m (r # rs) = addRow m r ++ foldl addRow Map.empty rs"
    using Cons.IH [of "addRow m r"] by simp
  also have "\<dots> = (m ++ addRow Map.empty r) ++ foldl addRow Map.empty rs"
    using addRow_map_add [of m r] by simp
  also have "\<dots> = m ++ (addRow Map.empty r ++ foldl addRow Map.empty rs)"
    by simp
  also have "addRow Map.empty r ++ foldl addRow Map.empty rs = foldl addRow Map.empty (r # rs)"
    using Cons.IH [of "addRow Map.empty r"] by simp
  finally show ?case .
qed

lemma listsMapping_init:
  "listsMapping (fst (init this outcome)) =
     (case outcome of Parsed data \<Rightarrow> foldl addRow (listsMapping this) data | _ \<Rightarrow> listsMapping this)"
  by (cases outcome) (auto simp: init_def loadListsMapping_def)

lemma isLoaded_init:
  "isLoaded (fst (init this outcome)) \<longleftrightarrow> (\<exists>data. outcome = Parsed data \<and> data \<noteq> [])"
  by (cases outcome) (auto simp: init_def loadListsMapping_def)


text \<open>
  Claim C1, as the code has it. \<^verbatim>\<open>init\<close> never empties the table: after any call,
  the table is the table before the call overridden by the table a new resolver would
  build from the same fetch. So a second call adds the entries of the newly fetched
  dataset, replaces the values of the keys that dataset also produces, and keeps every
  other entry of the first build (merge, not rebuild).
\<close>

theorem C1_second_init_merges:
  "listsMapping (fst (init this outcome)) =
     listsMapping this ++ listsMapping (fst (init (newNLPURLResolver origin) outcome))"
proof (cases outcome)
  case (Parsed data)
  then show ?thesis
    using foldl_addRow_map_add [of "listsMapping this" data]
    by (simp add: listsMapping_init newNLPURLResolver_def)
qed (simp_all add: listsMapping_init newNLPURLResolver_def)

text \<open>
  The claim as stated fails: after a first dataset with the title Alpha and a second
  with the title Beta, the key Alpha is still in the table, though the second dataset
  alone does not produce it.
\<close>

theorem C1_rebuild_counterexample:
  "listsMapping
     (fst (init (fst (init (newNLPURLResolver ''https://o'')
                        (Parsed [[''Title'' \<mapsto> ''Alpha'', ''Feed'' \<mapsto> ''alpha'']])))
             (Parsed [[''Title'' \<mapsto> ''Beta'', ''Feed'' \<mapsto> ''beta'']])))
     ''Alpha'' = Some ''alpha'' \<and>
   listsMapping
     (fst (init (newNLPURLResolver ''https://o'')
             (Parsed [[''Title'' \<mapsto> ''Beta'', ''Feed'' \<mapsto> ''beta'']])))
     ''Alpha'' = None"
  by code_simp

section \<open>Where an entry of the table comes from\<close>

lemma addRow_source:
  "addRow m r k = Some v \<Longrightarrow>
   m k = Some v \<or> (\<exists>t. rowEntry r = Some (t, v) \<and> (k = t \<or> k = toLowerCase t))"
  by (cases "rowEntry r") (auto simp: addRow_rowEntry setProperty_def split: if_splits)

lemma foldl_addRow_source:
  "foldl addRow m rs k = Some v \<Longrightarrow>
   m k = Some v \<or> (\<exists>r\<in>set rs. \<exists>t. rowEntry r = Some (t, v) \<and> (k = t \<or> k = toLowerCase t))"
proof (induction rs arbitrary: m)
  case Nil
  then show ?case by simp
next
  case (Cons r rs)
  from Cons.prems have "foldl addRow (addRow m r) rs k = Some v" by simp
  from Cons.IH [OF this] show ?case
  proof
    assume "addRow m r k = Some v"
    from addRow_source [OF this] show ?thesis by auto
  next
    assume "\<exists>r\<in>set rs. \<exists>t. rowEntry r = Some (t, v) \<and> (k = t \<or> k = toLowerCase t)"
    then show ?thesis by auto
  qed
qed

lemma addRow_written:
  "rowEntry r = Some (t, f) \<Longrightarrow> k = t \<or> k = toLowerCase t \<Longrightarrow> k \<noteq> ''__proto__'' \<Longrightarrow>
   addRow m r k = Some f"
  by (auto simp: addRow_rowEntry setProperty_def)

lemma addRow_unwritten:
  "\<forall>t f. rowEntry r = Some (t, f) \<longrightarrow> k \<noteq> t \<and> k \<noteq> toLowerCase t \<Longrightarrow> addRow m r k = m k"
  by (cases "rowEntry r") (auto simp: addRow_rowEntry setProperty_def)

lemma foldl_addRow_unwritten:
  "\<forall>r\<in>set rs. \<forall>t f. rowEntry r = Some (t, f) \<longrightarrow> k \<noteq> t \<and> k \<noteq> toLowerCase t \<Longrightarrow>
   foldl addRow m rs k = m k"
proof (induction rs arbitrary: m)
  case Nil
  then show ?case by simp
next
  case (Cons r rs)
  then have "foldl addRow (addRow m r) rs k = addRow m r k" by simp
  moreover have "addRow m r k = m k"
    using Cons.prems by (intro addRow_unwritten) simp
  ultimately show ?case by simp
qed

lemma foldl_addRow_keeps: "m k = Some v \<Longrightarrow> \<exists>v'. foldl addRow m rs k = Some v'"
proof -
  assume "m k = Some v"
  then have "\<exists>v'. (m ++ foldl addRow Map.empty rs) k = Some v'"
    by (simp add: map_add_def split: option.splits)
  then show ?thesis using foldl_addRow_map_add [of m rs] by simp
qed

lemma afterInits_snoc:
  "afterInits origin (outcomes @ [outcome]) = fst (init (afterInits origin outcomes) outcome)"
  by (simp add: afterInits_def)

lemma listsMapping_afterInits_source:
  "listsMapping (afterInits origin outcomes) k = Some v \<Longrightarrow>
   \<exists>data r t. Parsed data \<in> set outcomes \<and> r \<in> set data \<and> rowEntry r = Some (t, v) \<and>
              (k = t \<or> k = toLowerCase t)"
proof (induction outcomes arbitrary: k v rule: rev_induct)
  case Nil
  then show ?case by (simp add: afterInits_def newNLPURLResolver_def)
next
  case (snoc outcome outcomes)
  have step: "listsMapping (afterInits origin (outcomes @ [outcome])) =
      (case outcome of
         Parsed data \<Rightarrow> foldl addRow (listsMapping (afterInits origin outcomes)) data
       | _ \<Rightarrow> listsMapping (afterInits origin outcomes))"
    by (simp add: afterInits_snoc listsMapping_init)
  show ?case
  proof (cases outcome)
    case (Parsed data)
    with step snoc.prems
    have "foldl addRow (listsMapping (afterInits origin outcomes)) data k = Some v" by simp
    from foldl_addRow_source [OF this] show ?thesis
    proof
      assume "listsMapping (afterInits origin outcomes) k = Some v"
      from snoc.IH [OF this] show ?thesis by auto
    next
      assume "\<exists>r\<in>set data. \<exists>t. rowEntry r = Some (t, v) \<and> (k = t \<or> k = toLowerCase t)"
      with Parsed show ?thesis by auto
    qed
  next
    case (FetchError msg)
    with step snoc.prems have "listsMapping (afterInits origin outcomes) k = Some v" by simp
    from snoc.IH [OF this] show ?thesis by auto
  next
    case (ParseError msg)
    with step snoc.prems have "listsMapping (afterInits origin outcomes) k = Some v" by simp
    from snoc.IH [OF this] show ?thesis by auto
  qed
qed

lemma listsMapping_afterInits_nonempty:
  "listsMapping (afterInits origin outcomes) k = Some v \<Longrightarrow> k \<noteq> [] \<and> v \<noteq> []"
  by (auto dest!: listsMapping_afterInits_source rowEntry_nonempty simp: toLowerCase_Nil_iff)


section \<open>Resolving a title\<close>

lemma getProperty_empty_key:
  "getProperty (listsMapping (afterInits origin outcomes)) [] = Undefined"
proof -
  have "listsMapping (afterInits origin outcomes) [] = None"
    using listsMapping_afterInits_nonempty [of origin outcomes "[]"] by (cases "listsMapping (afterInits origin outcomes) []") auto
  then show ?thesis by (simp add: getProperty_def objectPrototype_def)
qed

text \<open>
  Claim C10. On a loaded resolver, a title that is not empty and holds white space only
  resolves to the fallback URL: it trims to the empty string, which is never a key of
  the table (nor a name \<^verbatim>\<open>Object.prototype\<close> defines).
\<close>

theorem C10_whitespace_title:
  assumes "isLoaded (afterInits origin outcomes)"
    and "title \<noteq> []" and "\<forall>c\<in>set title. isWhiteSpace c"
  shows "trim title = [] \<and>
         listsMapping (afterInits origin outcomes) (trim title) = None \<and>
         getProjectPageURL (afterInits origin outcomes) (Some title) (Some fallbackURL) = fallbackURL"
proof -
  from assms(3) have t: "trim title = []" by (simp add: trim_Nil_iff)
  have "listsMapping (afterInits origin outcomes) [] = None"
    using listsMapping_afterInits_nonempty [of origin outcomes "[]"]
    by (cases "listsMapping (afterInits origin outcomes) []") auto
  moreover have "getProjectPageURL (afterInits origin outcomes) (Some title) (Some fallbackURL) =
      fallbackURL"
    using assms(1,2) t by (simp add: getProjectPageURL_def getProperty_empty_key toLowerCase_def)
  ultimately show ?thesis using t by simp
qed

theorem C10_whitespace_title_witness:
  "isLoaded (afterInits ''https://o'' [Parsed [[''Title'' \<mapsto> ''Alpha Project'', ''Feed'' \<mapsto> ''alpha'']]]) \<and>
   isWhiteSpace (CHR 0x20) \<and> isWhiteSpace (CHR 0x09) \<and>
   getProjectPageURL
     (afterInits ''https://o'' [Parsed [[''Title'' \<mapsto> ''Alpha Project'', ''Feed'' \<mapsto> ''alpha'']]])
     (Some [CHR 0x20, CHR 0x09]) (Some ''https://x'') = ''https://x''"
proof -
  let ?res = "afterInits ''https://o'' [Parsed [[''Title'' \<mapsto> ''Alpha Project'', ''Feed'' \<mapsto> ''alpha'']]]"
  have l: "isLoaded ?res"
    by (simp add: afterInits_def isLoaded_init)
  have w: "\<forall>c\<in>set [CHR 0x20, CHR 0x09]. isWhiteSpace c"
    by (simp add: isWhiteSpace_def)
  from C10_whitespace_title [OF l _ w, of "''https://x''"] l w show ?thesis
    by simp
qed

text \<open>
  Claim C5 at the title \<^verbatim>\<open>constructor\<close>: the table holds no key for it in any case
  variant, yet the resolver is loaded and the read of \<^verbatim>\<open>listsMapping['constructor']\<close>
  finds the function every plain object inherits, which is truthy; the result is a
  projects-page URL built from that function's text, not the fallback URL.
\<close>

theorem C5_inherited_name_not_fallback:
  "listsMapping
     (afterInits ''https://o'' [Parsed [[''Title'' \<mapsto> ''Alpha Project'', ''Feed'' \<mapsto> ''alpha'']]])
     (trim ''constructor'') = None \<and>
   listsMapping
     (afterInits ''https://o'' [Parsed [[''Title'' \<mapsto> ''Alpha Project'', ''Feed'' \<mapsto> ''alpha'']]])
     (toLowerCase (trim ''constructor'')) = None \<and>
   getProjectPageURL
     (afterInits ''https://o'' [Parsed [[''Title'' \<mapsto> ''Alpha Project'', ''Feed'' \<mapsto> ''alpha'']]])
     (Some ''constructor'') (Some ''https://x'') =
   ''https://o/team/projects/#list=function Object() { [native code] }&display=table'' \<and>
   getProjectPageURL
     (afterInits ''https://o'' [Parsed [[''Title'' \<mapsto> ''Alpha Project'', ''Feed'' \<mapsto> ''alpha'']]])
     (Some ''constructor'') (Some ''https://x'') \<noteq> ''https://x''"
  by code_simp

text \<open>
  The three cases of the fallback where they do hold: the resolver is not loaded, the
  title is absent or empty, or neither the trimmed title nor its lower-cased form is a
  key of the table or a name that \<^verbatim>\<open>Object.prototype\<close> defines.
\<close>

lemma getProjectPageURL_fallback:
  "\<not> isLoaded this \<Longrightarrow> getProjectPageURL this projectTitle (Some fallbackURL) = fallbackURL"
  "projectTitle = None \<or> projectTitle = Some [] \<Longrightarrow>
     getProjectPageURL this projectTitle (Some fallbackURL) = fallbackURL"
  "listsMapping this (trim title) = None \<Longrightarrow> listsMapping this (toLowerCase (trim title)) = None \<Longrightarrow>
   objectPrototype (trim title) = Undefined \<Longrightarrow> objectPrototype (toLowerCase (trim title)) = Undefined \<Longrightarrow>
     getProjectPageURL this (Some title) (Some fallbackURL) = fallbackURL"
  by (auto simp: getProjectPageURL_def getProperty_def)

section \<open>The entries of the lookup table\<close>

lemma tableBuiltBy_foldl: "tableBuiltBy origin data = foldl addRow Map.empty data"
  by (simp add: listsMapping_init newNLPURLResolver_def)

lemma foldl_addRow_filter:
  "foldl addRow m (filter (\<lambda>r. rowEntry r \<noteq> None) rs) = foldl addRow m rs"
proof (induction rs arbitrary: m)
  case Nil
  then show ?case by simp
next
  case (Cons r rs)
  show ?case
  proof (cases "rowEntry r")
    case None
    then have "addRow m r = m" by (simp add: addRow_rowEntry)
    with None Cons.IH show ?thesis by simp
  next
    case (Some e)
    with Cons.IH show ?thesis by simp
  qed
qed

text \<open>
  Claim C7, as the code has it. Let the table be built by \<^verbatim>\<open>init\<close> on a new resolver.
  For every row with a non-empty trimmed title and a non-empty trimmed slug, the table
  has an entry under the trimmed title and an entry under its lower-cased form (a key
  \<^verbatim>\<open>__proto__\<close> apart, which the theorem leaves out); each maps to the slug of that
  row when no later row with both fields writes the same key (a later one overwrites
  it). Every entry of the table comes from a row with both fields, under its trimmed
  title or the lower-cased form, and every key is a non-empty string; the rows that miss
  a field add nothing: without them the table is the same.
\<close>

theorem C7_table_entries:
  "(\<forall>pre r post t f k.
      data = pre @ r # post \<and> rowEntry r = Some (t, f) \<and> (k = t \<or> k = toLowerCase t) \<and>
      k \<noteq> ''__proto__'' \<longrightarrow>
        (\<exists>f'. tableBuiltBy origin data k = Some f') \<and>
        ((\<forall>r'\<in>set post. \<forall>t' f'. rowEntry r' = Some (t', f') \<longrightarrow> k \<noteq> t' \<and> k \<noteq> toLowerCase t') \<longrightarrow>
           tableBuiltBy origin data k = Some f)) \<and>
   (\<forall>k v. tableBuiltBy origin data k = Some v \<longrightarrow>
      k \<noteq> [] \<and> (\<exists>r\<in>set data. \<exists>t. rowEntry r = Some (t, v) \<and> (k = t \<or> k = toLowerCase t))) \<and>
   tableBuiltBy origin data = tableBuiltBy origin (filter (\<lambda>r. rowEntry r \<noteq> None) data)"
proof (intro conjI allI impI)
  fix pre r post t f k
  assume a: "data = pre @ r # post \<and> rowEntry r = Some (t, f) \<and> (k = t \<or> k = toLowerCase t) \<and>
      k \<noteq> ''__proto__''"
  let ?m = "addRow (foldl addRow Map.empty pre) r"
  have tab: "tableBuiltBy origin data = foldl addRow ?m post"
    using a by (simp add: tableBuiltBy_foldl)
  have here: "?m k = Some f"
    using a by (intro addRow_written) auto
  show "\<exists>f'. tableBuiltBy origin data k = Some f'"
    using foldl_addRow_keeps [of ?m k f post] here tab by simp
  assume "\<forall>r'\<in>set post. \<forall>t' f'. rowEntry r' = Some (t', f') \<longrightarrow> k \<noteq> t' \<and> k \<noteq> toLowerCase t'"
  then have "foldl addRow ?m post k = ?m k" by (rule foldl_addRow_unwritten)
  with here tab show "tableBuiltBy origin data k = Some f" by simp
next
  fix k v
  assume "tableBuiltBy origin data k = Some v"
  then have "foldl addRow Map.empty data k = Some v" by (simp add: tableBuiltBy_foldl)
  from foldl_addRow_source [OF this]
  have src: "\<exists>r\<in>set data. \<exists>t. rowEntry r = Some (t, v) \<and> (k = t \<or> k = toLowerCase t)" by simp
  then show "\<exists>r\<in>set data. \<exists>t. rowEntry r = Some (t, v) \<and> (k = t \<or> k = toLowerCase t)" .
  from src show "k \<noteq> []"
    by (metis rowEntry_nonempty toLowerCase_Nil_iff)
next
  show "tableBuiltBy origin data = tableBuiltBy origin (filter (\<lambda>r. rowEntry r \<noteq> None) data)"
    by (simp only: tableBuiltBy_foldl foldl_addRow_filter)
qed

theorem C7_table_entries_witness:
  "rowEntry [''Title'' \<mapsto> '' Alpha Project '', ''Feed'' \<mapsto> ''alpha''] = Some (''Alpha Project'', ''alpha'') \<and>
   rowEntry [''Title'' \<mapsto> ''No Slug''] = None \<and>
   toLowerCase ''Alpha Project'' = ''alpha project'' \<and>
   tableBuiltBy ''https://o''
     [[''Title'' \<mapsto> '' Alpha Project '', ''Feed'' \<mapsto> ''alpha''], [''Title'' \<mapsto> ''No Slug'']]
     ''Alpha Project'' = Some ''alpha'' \<and>
   tableBuiltBy ''https://o''
     [[''Title'' \<mapsto> '' Alpha Project '', ''Feed'' \<mapsto> ''alpha''], [''Title'' \<mapsto> ''No Slug'']]
     ''alpha project'' = Some ''alpha''"
proof -
  let ?r = "[''Title'' \<mapsto> '' Alpha Project '', ''Feed'' \<mapsto> ''alpha'']"
  let ?r' = "[''Title'' \<mapsto> ''No Slug'']"
  have e: "rowEntry ?r = Some (''Alpha Project'', ''alpha'')" by code_simp
  have e': "rowEntry ?r' = None" by code_simp
  have l: "toLowerCase ''Alpha Project'' = ''alpha project''" by code_simp
  have post: "\<forall>r'\<in>set [?r']. \<forall>t' f'. rowEntry r' = Some (t', f') \<longrightarrow>
      k \<noteq> t' \<and> k \<noteq> toLowerCase t'" for k
    using e' by simp
  have d: "[?r, ?r'] = [] @ ?r # [?r']" by simp
  have p1: "''Alpha Project'' \<noteq> ''__proto__''" and p2: "''alpha project'' \<noteq> ''__proto__''"
    by simp_all
  note first = C7_table_entries [of "[?r, ?r']" "''https://o''", THEN conjunct1, rule_format,
      where pre = "[]" and r = ?r and post = "[?r']" and t = "''Alpha Project''" and f = "''alpha''"]
  have h1: "[?r, ?r'] = [] @ ?r # [?r'] \<and> rowEntry ?r = Some (''Alpha Project'', ''alpha'') \<and>
      (''Alpha Project'' = ''Alpha Project'' \<or> ''Alpha Project'' = toLowerCase ''Alpha Project'') \<and>
      ''Alpha Project'' \<noteq> ''__proto__''"
    using d e p1 by (intro conjI disjI1 refl)
  have h2: "[?r, ?r'] = [] @ ?r # [?r'] \<and> rowEntry ?r = Some (''Alpha Project'', ''alpha'') \<and>
      (''alpha project'' = ''Alpha Project'' \<or> ''alpha project'' = toLowerCase ''Alpha Project'') \<and>
      ''alpha project'' \<noteq> ''__proto__''"
    using d e p2 l [symmetric] by (intro conjI disjI2)
  have "tableBuiltBy ''https://o'' [?r, ?r'] ''Alpha Project'' = Some ''alpha''"
    by (rule first [OF h1, THEN conjunct2, THEN mp, OF post])
  moreover have "tableBuiltBy ''https://o'' [?r, ?r'] ''alpha project'' = Some ''alpha''"
    by (rule first [OF h2, THEN conjunct2, THEN mp, OF post])
  ultimately have "tableBuiltBy ''https://o'' [?r, ?r'] ''Alpha Project'' = Some ''alpha''"
    and "tableBuiltBy ''https://o'' [?r, ?r'] ''alpha project'' = Some ''alpha''"
    by blast+
  with e e' l show ?thesis by (intro conjI)
qed

text \<open>
  The claim as stated fails where two rows write one key: the row Alpha with slug a has
  both fields, yet the entry under its lower-cased title maps to b, the slug of the
  later row alpha.
\<close>

theorem C7_later_row_wins_counterexample:
  "rowEntry [''Title'' \<mapsto> ''Alpha'', ''Feed'' \<mapsto> ''a''] = Some (''Alpha'', ''a'') \<and>
   toLowerCase ''Alpha'' = ''alpha'' \<and>
   tableBuiltBy ''https://o''
     [[''Title'' \<mapsto> ''Alpha'', ''Feed'' \<mapsto> ''a''], [''Title'' \<mapsto> ''alpha'', ''Feed'' \<mapsto> ''b'']]
     ''alpha'' = Some ''b''"
  by code_simp

section \<open>Case variants of a stored title\<close>






end
